theory Spec2Isabelle
  imports Main "HOL-Library.Word" "HOL-Library.Log_Nat"
begin

unbundle bit_operations_syntax

section \<open>The WAVE container of the loopback capture example\<close>

text \<open>
  The development follows \<^verbatim>\<open>example/LoopbackCaptureSharedTimerDriven/main.go\<close>.
  Go's \<^verbatim>\<open>uint16\<close>, \<^verbatim>\<open>uint32\<close> and \<^verbatim>\<open>byte\<close> are words of that width, so that
  \<open>+\<close> and \<open>*\<close> wrap around as they do in Go.
\<close>

type_synonym byte = "8 word"
type_synonym uint16 = "16 word"
type_synonym uint32 = "32 word"

text \<open>The struct \<^verbatim>\<open>WAVEFormat\<close> (lines 22-31).\<close>

record WAVEFormat =
  FormatTag :: uint16
  Channels :: uint16
  SamplesPerSec :: uint32
  AvgBytesPerSec :: uint32
  BlockAlign :: uint16
  BitsPerSample :: uint16
  DataSize :: uint32
  RawData :: "byte list"

text \<open>
  The zero value \<^verbatim>\<open>&WAVEFormat{}\<close>: every number is 0 and the slice is nil.
\<close>

definition WAVEFormat_zero :: WAVEFormat where
  "WAVEFormat_zero = \<lparr>FormatTag = 0, Channels = 0, SamplesPerSec = 0, AvgBytesPerSec = 0,
     BlockAlign = 0, BitsPerSample = 0, DataSize = 0, RawData = []\<rparr>"

subsection \<open>\<^verbatim>\<open>encoding/binary\<close> on a \<^verbatim>\<open>bytes.Buffer\<close>\<close>

text \<open>
  \<^verbatim>\<open>binary.Write(buf, order, data)\<close> appends the encoding of \<open>data\<close> to the buffer. A byte
  slice is written as it is, whatever the byte order; a fixed-size unsigned integer is written
  by \<^verbatim>\<open>LittleEndian.PutUint16\<close> or \<^verbatim>\<open>PutUint32\<close>, least significant byte first. Writing to
  a \<^verbatim>\<open>bytes.Buffer\<close> does not fail, and \<^verbatim>\<open>Bytes\<close> ignores the returned error anyway.
\<close>

definition PutUint16 :: "uint16 \<Rightarrow> byte list" where
  "PutUint16 v = [ucast v, ucast (drop_bit 8 v)]"

definition PutUint32 :: "uint32 \<Rightarrow> byte list" where
  "PutUint32 v = [ucast v, ucast (drop_bit 8 v), ucast (drop_bit 16 v), ucast (drop_bit 24 v)]"

definition ascii :: "string \<Rightarrow> byte list" where
  "ascii s = map of_char s"

definition Write :: "byte list \<Rightarrow> byte list \<Rightarrow> byte list" where
  "Write buf data = buf @ data"

text \<open>The method \<^verbatim>\<open>Bytes\<close> (lines 33-51): thirteen writes to a fresh buffer.\<close>

definition Bytes :: "WAVEFormat \<Rightarrow> byte list" where
  "Bytes v =
    (let buf = [];
         buf = Write buf (ascii ''RIFF'');
         buf = Write buf (PutUint32 (DataSize v + 36));
         buf = Write buf (ascii ''WAVEfmt '');
         buf = Write buf (PutUint32 16);
         buf = Write buf (PutUint16 1);
         buf = Write buf (PutUint16 (Channels v));
         buf = Write buf (PutUint32 (SamplesPerSec v));
         buf = Write buf (PutUint32 (AvgBytesPerSec v));
         buf = Write buf (PutUint16 (BlockAlign v));
         buf = Write buf (PutUint16 (BitsPerSample v));
         buf = Write buf (ascii ''data'');
         buf = Write buf (PutUint32 (DataSize v));
         buf = Write buf (RawData v)
     in buf)"

subsection \<open>Reading a container back\<close>

text \<open>
  The program has no decoder. The functions below read a byte sequence the way the layout
  table of the specification describes it: an unsigned little-endian number is the sum of its
  bytes, the byte at offset \<open>k\<close> weighted by \<open>256 ^ k\<close>.
\<close>

definition spec_uint16_at :: "byte list \<Rightarrow> nat \<Rightarrow> nat" where
  "spec_uint16_at bs i = unat (bs ! i) + 256 * unat (bs ! (i + 1))"

definition spec_uint32_at :: "byte list \<Rightarrow> nat \<Rightarrow> nat" where
  "spec_uint32_at bs i = unat (bs ! i) + 256 * unat (bs ! (i + 1))
     + 65536 * unat (bs ! (i + 2)) + 16777216 * unat (bs ! (i + 3))"

record spec_header =
  h_riffSize :: nat
  h_fmtSize :: nat
  h_formatTag :: nat
  h_channels :: nat
  h_samplesPerSec :: nat
  h_avgBytesPerSec :: nat
  h_blockAlign :: nat
  h_bitsPerSample :: nat
  h_dataSize :: nat

definition spec_decode_header :: "byte list \<Rightarrow> spec_header option" where
  "spec_decode_header bs =
    (if length bs < 44 \<or> take 4 bs \<noteq> ascii ''RIFF'' \<or> take 8 (drop 8 bs) \<noteq> ascii ''WAVEfmt ''
        \<or> take 4 (drop 36 bs) \<noteq> ascii ''data''
     then None
     else Some \<lparr>h_riffSize = spec_uint32_at bs 4, h_fmtSize = spec_uint32_at bs 16,
       h_formatTag = spec_uint16_at bs 20, h_channels = spec_uint16_at bs 22,
       h_samplesPerSec = spec_uint32_at bs 24, h_avgBytesPerSec = spec_uint32_at bs 28,
       h_blockAlign = spec_uint16_at bs 32, h_bitsPerSample = spec_uint16_at bs 34,
       h_dataSize = spec_uint32_at bs 40\<rparr>)"

section \<open>Floating-point arithmetic of the duration bookkeeping\<close>

text \<open>
  Lines 63, 239 and 263 compute in \<^verbatim>\<open>float64\<close> and convert the result to \<^verbatim>\<open>time.Duration\<close>,
  an \<^verbatim>\<open>int64\<close> counting nanoseconds. A finite \<^verbatim>\<open>float64\<close> is modelled by the rational number
  it denotes; \<open>None\<close> stands for the values that are not finite (the infinities and NaN). Each
  operation yields the exact result rounded to the nearest \<^verbatim>\<open>float64\<close>, ties to the value with
  an even significand: 53 significant bits, exponents from -1022 to 1023, and below
  \<open>2 powi (- 1022)\<close> the fixed spacing \<open>2 powi (- 1074)\<close> of the subnormal numbers.
\<close>

type_synonym float64 = "rat option"

definition round_half_even :: "rat \<Rightarrow> int" where
  "round_half_even r =
    (let f = \<lfloor>r\<rfloor>; d = r - of_int f
     in if d < 1 / 2 then f else if 1 / 2 < d then f + 1 else if even f then f else f + 1)"

text \<open>The binary exponent of a positive rational: \<open>2 powi expo x \<le> x < 2 powi (expo x + 1)\<close>.\<close>

definition expo :: "rat \<Rightarrow> int" where
  "expo x =
    (case quotient_of x of (p, q) \<Rightarrow>
       let d = bitlen p - bitlen q in if 2 powi d \<le> x then d else d - 1)"

definition f64_ulp :: "rat \<Rightarrow> rat" where
  "f64_ulp x = 2 powi (max (expo \<bar>x\<bar>) (- 1022) - 52)"

definition f64_nearest :: "rat \<Rightarrow> rat" where
  "f64_nearest x =
    (if x = 0 then 0
     else sgn x * (of_int (round_half_even (\<bar>x\<bar> / f64_ulp x)) * f64_ulp x))"

text \<open>Rounding overflows to an infinity when the rounded magnitude reaches \<open>2 ^ 1024\<close>.\<close>

definition f64_round :: "rat \<Rightarrow> float64" where
  "f64_round x =
    (let y = f64_nearest x in if y \<noteq> 0 \<and> 1024 \<le> expo \<bar>y\<bar> then None else Some y)"

text \<open>
  Division and multiplication. Every divisor and every right factor in the program is the
  conversion of an integer, hence finite, so the second operand is a rational. A finite value
  divided by zero is an infinity or NaN, and so is every operation on a value that is not
  finite.
\<close>

definition f64_div :: "float64 \<Rightarrow> rat \<Rightarrow> float64" where
  "f64_div a y = (case a of None \<Rightarrow> None | Some x \<Rightarrow> if y = 0 then None else f64_round (x / y))"

definition f64_mul :: "float64 \<Rightarrow> rat \<Rightarrow> float64" where
  "f64_mul a y = (case a of None \<Rightarrow> None | Some x \<Rightarrow> f64_round (x * y))"

text \<open>\<^verbatim>\<open>float64(n)\<close> of an unsigned 16-bit or 32-bit integer is exact.\<close>

definition float64_of_uint16 :: "uint16 \<Rightarrow> rat" where
  "float64_of_uint16 w = of_nat (unat w)"

definition float64_of_uint32 :: "uint32 \<Rightarrow> rat" where
  "float64_of_uint32 w = of_nat (unat w)"

text \<open>\<^verbatim>\<open>time.Second\<close>, in nanoseconds.\<close>

definition Second :: int where
  "Second = 1000000000"

text \<open>
  \<^verbatim>\<open>time.Duration(x)\<close> of a \<^verbatim>\<open>float64\<close> discards the fraction. Go leaves the result to the
  implementation when the value is not finite or does not fit an \<^verbatim>\<open>int64\<close>: the model has no
  value there (\<open>None\<close>).
\<close>

definition trunc :: "rat \<Rightarrow> int" where
  "trunc x = (if 0 \<le> x then \<lfloor>x\<rfloor> else \<lceil>x\<rceil>)"

definition Duration_of_float64 :: "float64 \<Rightarrow> int option" where
  "Duration_of_float64 a =
    (case a of None \<Rightarrow> None
     | Some x \<Rightarrow> let t = trunc x in
         if - (2 ^ 63) \<le> t \<and> t < 2 ^ 63 then Some t else None)"

text \<open>Go's \<^verbatim>\<open>/\<close> on signed integers truncates towards zero.\<close>

definition quo :: "int \<Rightarrow> int \<Rightarrow> int" where
  "quo a b = sgn a * sgn b * (\<bar>a\<bar> div \<bar>b\<bar>)"

section \<open>Command-line flags\<close>

datatype error = OleError nat | ParseError | SuffixError | PathError

text \<open>
  \<^verbatim>\<open>DurationFlag.Set\<close> (lines 57-65). \<^verbatim>\<open>strconv.ParseFloat\<close> is not modelled: its result, an
  error or the parsed \<^verbatim>\<open>float64\<close>, is the argument. The flag's value is absent where Go leaves
  the conversion to the implementation.
\<close>

definition DurationFlag_Set :: "error + rat \<Rightarrow> error + int option" where
  "DurationFlag_Set parsed =
    (case parsed of Inl e \<Rightarrow> Inl e
     | Inr sec \<Rightarrow> Inr (Duration_of_float64 (f64_mul (Some sec) (of_int Second))))"

section \<open>The capture session\<close>

text \<open>The struct \<^verbatim>\<open>wca.WAVEFORMATEX\<close> that \<^verbatim>\<open>GetMixFormat\<close> hands out.\<close>

record WAVEFORMATEX =
  WFormatTag :: uint16
  NChannels :: uint16
  NSamplesPerSec :: uint32
  NAvgBytesPerSec :: uint32
  NBlockAlign :: uint16
  WBitsPerSample :: uint16
  CbSize :: uint16

text \<open>Lines 161-167: the negotiated format is overwritten field by field.\<close>

definition override :: "WAVEFORMATEX \<Rightarrow> WAVEFORMATEX" where
  "override wfx0 =
    (let wfx = wfx0\<lparr>WFormatTag := 1\<rparr>;
         wfx = wfx\<lparr>NChannels := 2\<rparr>;
         wfx = wfx\<lparr>NSamplesPerSec := 44100\<rparr>;
         wfx = wfx\<lparr>WBitsPerSample := 16\<rparr>;
         wfx = wfx\<lparr>NBlockAlign := (WBitsPerSample wfx div 8) * NChannels wfx\<rparr>;
         wfx = wfx\<lparr>NAvgBytesPerSec := NSamplesPerSec wfx * ucast (NBlockAlign wfx)\<rparr>;
         wfx = wfx\<lparr>CbSize := 0\<rparr>
     in wfx)"

text \<open>Lines 169-174: a zero \<^verbatim>\<open>WAVEFormat\<close> receives five fields of the format.\<close>

definition newAudio :: "WAVEFORMATEX \<Rightarrow> WAVEFormat" where
  "newAudio wfx =
    (let audio = WAVEFormat_zero;
         audio = audio\<lparr>Channels := NChannels wfx\<rparr>;
         audio = audio\<lparr>SamplesPerSec := NSamplesPerSec wfx\<rparr>;
         audio = audio\<lparr>AvgBytesPerSec := NAvgBytesPerSec wfx\<rparr>;
         audio = audio\<lparr>BlockAlign := NBlockAlign wfx\<rparr>;
         audio = audio\<lparr>BitsPerSample := WBitsPerSample wfx\<rparr>
     in audio)"

text \<open>
  What the program does to its surroundings, in the order in which it does it: calls on the
  capture client and the audio client, sleeps, and the write of the output file. The append to
  the accumulator is recorded as well, with the appended bytes, so that its place in that order
  is visible. Console output and the reference-count releases deferred to function exit are not
  recorded.
\<close>

datatype event =
    Sleep int
  | GetBuffer
  | Append "byte list"
  | GetCurrentPadding
  | ReleaseBuffer uint32
  | Stop
  | WriteFile string "byte list"

text \<open>
  What the surroundings answer during one pass through the loop body: whether an interrupt is
  waiting on the signal channel; the answer of \<^verbatim>\<open>GetBuffer\<close>, an error or the memory behind
  the returned pointer (the byte at each offset) with the number of available frames; the
  answer of \<^verbatim>\<open>GetCurrentPadding\<close>; and the answer of \<^verbatim>\<open>ReleaseBuffer\<close>.
\<close>

record poll =
  sigint :: bool
  r_GetBuffer :: "error + (nat \<Rightarrow> byte) \<times> uint32"
  r_GetCurrentPadding :: "error + uint32"
  r_ReleaseBuffer :: "error option"

text \<open>The variables of the loop that the claims are about, and the events so far.\<close>

record capture =
  audio :: WAVEFormat
  isCapturing :: bool
  capturingPeriod :: int
  trace :: "event list"

text \<open>Line 239.\<close>

definition currentDuration :: "WAVEFormat \<Rightarrow> int option" where
  "currentDuration a =
    Duration_of_float64
      (f64_mul
        (f64_div
          (f64_div
            (f64_div (Some (float64_of_uint32 (DataSize a)))
              (float64_of_uint16 (BitsPerSample a div 8)))
            (float64_of_uint16 (Channels a)))
          (float64_of_uint32 (SamplesPerSec a)))
        (of_int Second))"

text \<open>The condition of line 240.\<close>

definition shouldStop :: "int \<Rightarrow> int \<Rightarrow> bool" where
  "shouldStop duration current = (duration \<noteq> 0 \<and> current > duration)"

text \<open>The condition of line 211, under which the program tells the user to press Ctrl-C.\<close>

definition announcesUnbounded :: "int \<Rightarrow> bool" where
  "announcesUnbounded duration = (duration \<le> 0)"

text \<open>Line 263.\<close>

definition nextPeriod :: "uint32 \<Rightarrow> uint32 \<Rightarrow> WAVEFORMATEX \<Rightarrow> int option" where
  "nextPeriod bufferFrameSize padding wfx =
    Duration_of_float64
      (f64_mul
        (f64_div (Some (float64_of_uint32 (bufferFrameSize - padding)))
          (float64_of_uint32 (NSamplesPerSec wfx)))
        (of_int Second))"

text \<open>
  Lines 254-257: byte \<open>n\<close> behind the pointer is appended to \<^verbatim>\<open>RawData\<close>, for \<open>n\<close> from 0 up
  to \<open>limit\<close> (\<^verbatim>\<open>lim\<close> in the source). It is the product of two \<^verbatim>\<open>int\<close>s, 64 bits wide on the platforms modelled
  here, and a product of a 32-bit and a 16-bit number does not overflow them.
\<close>

function copyFrames :: "nat \<Rightarrow> nat \<Rightarrow> (nat \<Rightarrow> byte) \<Rightarrow> byte list \<Rightarrow> byte list" where
  "copyFrames n limit mem raw =
    (if n < limit then copyFrames (n + 1) limit mem (raw @ [mem n]) else raw)"
  by pat_completeness auto
termination
  by (relation "measure (\<lambda>(n, limit, mem, raw). limit - n)") auto

declare copyFrames.simps [simp del]

text \<open>
  One pass through the body of the \<^verbatim>\<open>for\<close> loop (lines 233-268), entered with
  \<^verbatim>\<open>isCapturing\<close> true. It ends by going round again (\<open>Next\<close>), by returning an error
  (\<open>Return\<close>), or where Go does not define the conversion of a \<^verbatim>\<open>float64\<close>
  (\<open>Undefined\<close>).
\<close>

datatype step = Next capture | Return error capture | Undefined

definition emit :: "event \<Rightarrow> capture \<Rightarrow> capture" where
  "emit e s = s\<lparr>trace := trace s @ [e]\<rparr>"

definition accumulate :: "(nat \<Rightarrow> byte) \<Rightarrow> uint32 \<Rightarrow> WAVEFORMATEX \<Rightarrow> WAVEFormat \<Rightarrow> WAVEFormat" where
  "accumulate mem availableFrameSize wfx a =
    (let limit = unat availableFrameSize * unat (NBlockAlign wfx);
         a = a\<lparr>RawData := copyFrames 0 limit mem (RawData a)\<rparr>;
         a = a\<lparr>DataSize := DataSize a + of_nat limit\<rparr>
     in a)"

definition iteration :: "int \<Rightarrow> WAVEFORMATEX \<Rightarrow> uint32 \<Rightarrow> capture \<Rightarrow> poll \<Rightarrow> step" where
  "iteration duration wfx bufferFrameSize s p =
    (if sigint p then Next (s\<lparr>isCapturing := False\<rparr>)
     else case currentDuration (audio s) of
       None \<Rightarrow> Undefined
     | Some current \<Rightarrow>
         if shouldStop duration current then Next (s\<lparr>isCapturing := False\<rparr>)
         else let s = emit GetBuffer s in
           case r_GetBuffer p of
             Inl err \<Rightarrow> Return err s
           | Inr (mem, availableFrameSize) \<Rightarrow>
               if availableFrameSize = 0 then Next s
               else let a = accumulate mem availableFrameSize wfx (audio s);
                        s = emit (Append (drop (length (RawData (audio s))) (RawData a))) (s\<lparr>audio := a\<rparr>);
                        s = emit GetCurrentPadding s
                 in case r_GetCurrentPadding p of
                      Inl err \<Rightarrow> Return err s
                    | Inr padding \<Rightarrow>
                        (case nextPeriod bufferFrameSize padding wfx of
                           None \<Rightarrow> Undefined
                         | Some period \<Rightarrow>
                             let s = s\<lparr>capturingPeriod := period\<rparr>;
                                 s = emit (Sleep (quo period 2)) s;
                                 s = emit (ReleaseBuffer availableFrameSize) s
                             in case r_ReleaseBuffer p of
                                  Some err \<Rightarrow> Return err s
                                | None \<Rightarrow> Next s))"

text \<open>
  The \<^verbatim>\<open>for\<close> loop (lines 229-269) over the answers of the surroundings, one per pass. The
  loop has no bound of its own: when the answers run out while \<^verbatim>\<open>isCapturing\<close> is still
  true, it is \<open>Running\<close>.
\<close>

datatype outcome = Stopped capture | Failed error capture | Running capture | Unspecified

fun captureLoop :: "int \<Rightarrow> WAVEFORMATEX \<Rightarrow> uint32 \<Rightarrow> capture \<Rightarrow> poll list \<Rightarrow> outcome" where
  "captureLoop duration wfx bufferFrameSize s [] =
    (if \<not> isCapturing s then Stopped s else Running s)"
| "captureLoop duration wfx bufferFrameSize s (p # ps) =
    (if \<not> isCapturing s then Stopped s
     else case iteration duration wfx bufferFrameSize s p of
       Next s' \<Rightarrow> captureLoop duration wfx bufferFrameSize s' ps
     | Return err s' \<Rightarrow> Failed err s'
     | Undefined \<Rightarrow> Unspecified)"

text \<open>
  The answers of the calls that set the session up (lines 121-207), the answers during the
  loop, and the answers of \<^verbatim>\<open>Stop\<close> and of \<^verbatim>\<open>ioutil.WriteFile\<close>.
\<close>

record surroundings =
  r_CoInitializeEx :: "error option"
  r_CoCreateInstance :: "error option"
  r_GetDefaultAudioEndpoint :: "error option"
  r_OpenPropertyStore :: "error option"
  r_GetValue :: "error option"
  r_Activate :: "error option"
  r_GetMixFormat :: "error + WAVEFORMATEX"
  r_GetDevicePeriod :: "error + 64 word \<times> 64 word"
  r_Initialize :: "error option"
  r_GetBufferSize :: "error + uint32"
  r_GetService :: "error option"
  r_Start :: "error option"
  r_polls :: "poll list"
  r_Stop :: "error option"
  r_WriteFile :: "error option"

text \<open>
  Lines 121-214 up to the first sleep: the format in force, the first capturing period
  (\<^verbatim>\<open>int(defaultPeriod) * 100\<close>, a 64-bit product) and the buffer size, or the first error.
\<close>

definition failing :: "error option \<Rightarrow> (error + 'a) \<Rightarrow> error + 'a" where
  "failing r k = (case r of Some err \<Rightarrow> Inl err | None \<Rightarrow> k)"

definition setupSession :: "surroundings \<Rightarrow> error + WAVEFORMATEX \<times> int \<times> uint32" where
  "setupSession env =
    failing (r_CoInitializeEx env)
    (failing (r_CoCreateInstance env)
    (failing (r_GetDefaultAudioEndpoint env)
    (failing (r_OpenPropertyStore env)
    (failing (r_GetValue env)
    (failing (r_Activate env)
    (case r_GetMixFormat env of
       Inl err \<Rightarrow> Inl err
     | Inr wfx0 \<Rightarrow>
         let wfx = override wfx0 in
         (case r_GetDevicePeriod env of
            Inl err \<Rightarrow> Inl err
          | Inr (defaultPeriod, minimumPeriod) \<Rightarrow>
              let period = sint (defaultPeriod * 100) in
              failing (r_Initialize env)
              (case r_GetBufferSize env of
                 Inl err \<Rightarrow> Inl err
               | Inr bufferFrameSize \<Rightarrow>
                   failing (r_GetService env)
                   (failing (r_Start env)
                   (Inr (wfx, period, bufferFrameSize)))))))))))"

text \<open>
  The function \<^verbatim>\<open>loopbackCaptureSharedTimerDriven\<close> (lines 120-276). Its Go result is the
  pair of the \<^verbatim>\<open>audio\<close> pointer and the error; \<open>Stopped\<close> stands for a nil error.
\<close>

definition loopbackCaptureSharedTimerDriven :: "int \<Rightarrow> surroundings \<Rightarrow> outcome" where
  "loopbackCaptureSharedTimerDriven duration env =
    (case setupSession env of
       Inl err \<Rightarrow> Failed err \<lparr>audio = WAVEFormat_zero, isCapturing = False, capturingPeriod = 0, trace = []\<rparr>
     | Inr (wfx, period, bufferFrameSize) \<Rightarrow>
         let s = \<lparr>audio = newAudio wfx, isCapturing = True, capturingPeriod = period,
                   trace = [Sleep period]\<rparr>
         in case captureLoop duration wfx bufferFrameSize s (r_polls env) of
              Stopped s' \<Rightarrow>
                (let s' = emit Stop s'
                 in case r_Stop env of Some err \<Rightarrow> Failed err s' | None \<Rightarrow> Stopped s')
            | other \<Rightarrow> other)"

text \<open>
  The function \<^verbatim>\<open>run\<close> (lines 95-118) after flag parsing: the values of the two flags are
  arguments. The result is what \<^verbatim>\<open>run\<close> returns, if it returns (\<open>None\<close> inside for a nil
  error), and the events of the whole run.
\<close>

definition run :: "int \<Rightarrow> string \<Rightarrow> surroundings \<Rightarrow> error option option \<times> event list" where
  "run durationValue filenameValue env =
    (if filenameValue = [] then (Some None, [])
     else case loopbackCaptureSharedTimerDriven durationValue env of
       Failed err s \<Rightarrow> (Some (Some err), trace s)
     | Running s \<Rightarrow> (None, trace s)
     | Unspecified \<Rightarrow> (None, [])
     | Stopped s \<Rightarrow>
         (let s = emit (WriteFile filenameValue (Bytes (audio s))) s
          in case r_WriteFile env of
               Some err \<Rightarrow> (Some (Some err), trace s)
             | None \<Rightarrow> (Some None, trace s)))"

section \<open>Properties of the encoder\<close>

lemma ascii_tags:
  "ascii ''RIFF'' = [0x52, 0x49, 0x46, 0x46]"
  "ascii ''WAVEfmt '' = [0x57, 0x41, 0x56, 0x45, 0x66, 0x6D, 0x74, 0x20]"
  "ascii ''data'' = [0x64, 0x61, 0x74, 0x61]"
  by (simp_all add: ascii_def)

lemma length_PutUint16: "length (PutUint16 v) = 2"
  by (simp add: PutUint16_def)

lemma length_PutUint32: "length (PutUint32 v) = 4"
  by (simp add: PutUint32_def)

text \<open>The sum of the weighted bytes of \<open>PutUint32 v\<close> is \<open>v\<close>: the bytes are little-endian.\<close>

lemma unat_ucast_byte32: "unat (ucast (w :: uint32) :: byte) = unat w mod 256"
  by (simp add: unsigned_ucast_eq take_bit_eq_mod)

lemma unat_ucast_byte16: "unat (ucast (w :: uint16) :: byte) = unat w mod 256"
  by (simp add: unsigned_ucast_eq take_bit_eq_mod)

lemma unat_drop_bit32: "unat (drop_bit k (w :: uint32)) = unat w div 2 ^ k"
  by (subst unat_drop_bit_eq) (rule drop_bit_eq_div)

lemma unat_drop_bit16: "unat (drop_bit k (w :: uint16)) = unat w div 2 ^ k"
  by (subst unat_drop_bit_eq) (rule drop_bit_eq_div)

lemma unat_uint32_less: "unat (v :: uint32) < 4294967296"
  using unsigned_less [of v, where ?'a = nat] by simp

lemma unat_uint16_less: "unat (v :: uint16) < 65536"
  using unsigned_less [of v, where ?'a = nat] by simp

lemma le32_sum:
  fixes n :: nat
  assumes "n < 4294967296"
  shows "n mod 256 + 256 * (n div 256 mod 256) + 65536 * (n div 65536 mod 256)
           + 16777216 * (n div 16777216 mod 256) = n"
proof -
  define a where "a = n div 256"
  define b where "b = a div 256"
  define c where "c = b div 256"
  have n: "n = n mod 256 + 256 * a" by (simp add: a_def)
  have a: "a = a mod 256 + 256 * b" by (simp add: b_def)
  have b: "b = b mod 256 + 256 * c" by (simp add: c_def)
  have c: "c < 256" using assms unfolding c_def b_def a_def by simp
  have e: "n div 65536 = b" "n div 16777216 = c"
    unfolding c_def b_def a_def by (simp_all add: div_mult2_eq)
  have "n mod 256 + 256 * (a mod 256) + 65536 * (b mod 256) + 16777216 * c = n"
    using n a b by linarith
  then show ?thesis
    using c by (simp add: e a_def [symmetric])
qed

lemma le16_sum:
  fixes n :: nat
  assumes "n < 65536"
  shows "n mod 256 + 256 * (n div 256 mod 256) = n"
proof -
  have "n div 256 < 256" using assms by simp
  then show ?thesis by simp
qed

lemma PutUint32_value:
  "PutUint32 v = [b0, b1, b2, b3] \<Longrightarrow>
     unat b0 + 256 * unat b1 + 65536 * unat b2 + 16777216 * unat b3 = unat v"
proof -
  assume a: "PutUint32 v = [b0, b1, b2, b3]"
  have b: "unat b0 = unat v mod 256" "unat b1 = unat v div 256 mod 256"
    "unat b2 = unat v div 65536 mod 256" "unat b3 = unat v div 16777216 mod 256"
    using a by (auto simp add: PutUint32_def unat_ucast_byte32 unat_drop_bit32)
  show ?thesis
    unfolding b by (rule le32_sum [OF unat_uint32_less])
qed

lemma PutUint16_value:
  "PutUint16 v = [b0, b1] \<Longrightarrow> unat b0 + 256 * unat b1 = unat v"
proof -
  assume a: "PutUint16 v = [b0, b1]"
  have b: "unat b0 = unat v mod 256" "unat b1 = unat v div 256 mod 256"
    using a by (auto simp add: PutUint16_def unat_ucast_byte16 unat_drop_bit16)
  show ?thesis
    unfolding b by (rule le16_sum [OF unat_uint16_less])
qed

lemma spec_uint32_at_PutUint32:
  "length xs = i \<Longrightarrow> spec_uint32_at (xs @ PutUint32 v @ ys) i = unat v"
proof -
  assume i: "length xs = i"
  obtain b0 b1 b2 b3 where p: "PutUint32 v = [b0, b1, b2, b3]"
    by (simp add: PutUint32_def)
  show ?thesis
    using PutUint32_value [OF p] i by (simp add: spec_uint32_at_def p nth_append)
qed

lemma spec_uint16_at_PutUint16:
  "length xs = i \<Longrightarrow> spec_uint16_at (xs @ PutUint16 v @ ys) i = unat v"
proof -
  assume i: "length xs = i"
  obtain b0 b1 where p: "PutUint16 v = [b0, b1]"
    by (simp add: PutUint16_def)
  show ?thesis
    using PutUint16_value [OF p] i by (simp add: spec_uint16_at_def p nth_append)
qed

lemma Bytes_layout:
  "Bytes v = ascii ''RIFF'' @ PutUint32 (DataSize v + 36) @ ascii ''WAVEfmt '' @ PutUint32 16
     @ PutUint16 1 @ PutUint16 (Channels v) @ PutUint32 (SamplesPerSec v)
     @ PutUint32 (AvgBytesPerSec v) @ PutUint16 (BlockAlign v) @ PutUint16 (BitsPerSample v)
     @ ascii ''data'' @ PutUint32 (DataSize v) @ RawData v"
  by (simp add: Bytes_def Write_def)

lemma length_Bytes: "length (Bytes v) = 44 + length (RawData v)"
  by (simp add: Bytes_layout length_PutUint16 length_PutUint32 ascii_def)

lemma drop_44_Bytes: "drop 44 (Bytes v) = RawData v"
  by (simp add: Bytes_layout length_PutUint16 length_PutUint32 ascii_def)

lemma le32_value:
  "unat (ucast v :: byte) + 256 * unat (ucast (drop_bit 8 v) :: byte)
     + 65536 * unat (ucast (drop_bit 16 v) :: byte)
     + 16777216 * unat (ucast (drop_bit 24 v) :: byte) = unat (v :: uint32)"
  by (rule PutUint32_value) (simp add: PutUint32_def)

lemma le16_value:
  "unat (ucast v :: byte) + 256 * unat (ucast (drop_bit 8 v) :: byte) = unat (v :: uint16)"
  by (rule PutUint16_value) (simp add: PutUint16_def)

lemma Bytes_fields:
  "spec_uint32_at (Bytes v) 4 = unat (DataSize v + 36)"
  "spec_uint32_at (Bytes v) 16 = 16"
  "spec_uint16_at (Bytes v) 20 = 1"
  "spec_uint16_at (Bytes v) 22 = unat (Channels v)"
  "spec_uint32_at (Bytes v) 24 = unat (SamplesPerSec v)"
  "spec_uint32_at (Bytes v) 28 = unat (AvgBytesPerSec v)"
  "spec_uint16_at (Bytes v) 32 = unat (BlockAlign v)"
  "spec_uint16_at (Bytes v) 34 = unat (BitsPerSample v)"
  "spec_uint32_at (Bytes v) 40 = unat (DataSize v)"
  by (simp_all add: Bytes_layout ascii_tags PutUint32_def PutUint16_def
        spec_uint32_at_def spec_uint16_at_def le32_value le16_value)

lemma Bytes_tags:
  "take 4 (Bytes v) = [0x52, 0x49, 0x46, 0x46]"
  "take 8 (drop 8 (Bytes v)) = [0x57, 0x41, 0x56, 0x45, 0x66, 0x6D, 0x74, 0x20]"
  "take 4 (drop 36 (Bytes v)) = [0x64, 0x61, 0x74, 0x61]"
  by (simp_all add: Bytes_layout ascii_tags PutUint32_def PutUint16_def)

text \<open>
  Claim C1. For every \<^verbatim>\<open>WAVEFormat\<close> value, \<^verbatim>\<open>Bytes\<close> produces the canonical PCM layout: the
  tag "RIFF", \<open>DataSize + 36\<close> as a little-endian 32-bit number, the tag "WAVEfmt ", the
  32-bit number 16, the 16-bit number 1, then the channels, the sample rate, the average byte
  rate, the block alignment and the bits per sample, the tag "data", \<open>DataSize\<close>, and last the
  raw bytes. The header is 44 bytes long. Every number of the header, read back as the weighted
  sum of its bytes, is the field it was written from. With channels 2, rate 44100, 16 bits and
  eight accumulated bytes the output is 52 bytes long, bytes 40 to 43 hold 8 and bytes 4 to 7
  hold 44; with nothing accumulated the output is the 44 bytes of the header, the data size
  is 0 and nothing follows.
\<close>

theorem Bytes_canonical_layout:
  "Bytes v = [0x52, 0x49, 0x46, 0x46] @ PutUint32 (DataSize v + 36)
       @ [0x57, 0x41, 0x56, 0x45, 0x66, 0x6D, 0x74, 0x20] @ PutUint32 16 @ PutUint16 1
       @ PutUint16 (Channels v) @ PutUint32 (SamplesPerSec v) @ PutUint32 (AvgBytesPerSec v)
       @ PutUint16 (BlockAlign v) @ PutUint16 (BitsPerSample v)
       @ [0x64, 0x61, 0x74, 0x61] @ PutUint32 (DataSize v) @ RawData v
   \<and> length (Bytes v) = 44 + length (RawData v)
   \<and> drop 44 (Bytes v) = RawData v
   \<and> spec_uint32_at (Bytes v) 4 = unat (DataSize v + 36)
   \<and> spec_uint32_at (Bytes v) 16 = 16
   \<and> spec_uint16_at (Bytes v) 20 = 1
   \<and> spec_uint16_at (Bytes v) 22 = unat (Channels v)
   \<and> spec_uint32_at (Bytes v) 24 = unat (SamplesPerSec v)
   \<and> spec_uint32_at (Bytes v) 28 = unat (AvgBytesPerSec v)
   \<and> spec_uint16_at (Bytes v) 32 = unat (BlockAlign v)
   \<and> spec_uint16_at (Bytes v) 34 = unat (BitsPerSample v)
   \<and> spec_uint32_at (Bytes v) 40 = unat (DataSize v)
   \<and> (let w = v\<lparr>Channels := 2, SamplesPerSec := 44100, BitsPerSample := 16, DataSize := 8,
                   RawData := [b0, b1, b2, b3, b4, b5, b6, b7]\<rparr>
      in length (Bytes w) = 52 \<and> spec_uint32_at (Bytes w) 40 = 8 \<and> spec_uint32_at (Bytes w) 4 = 44)
   \<and> (let w = v\<lparr>DataSize := 0, RawData := []\<rparr>
      in length (Bytes w) = 44 \<and> spec_uint32_at (Bytes w) 40 = 0 \<and> drop 44 (Bytes w) = [])"
proof -
  have "Bytes v = [0x52, 0x49, 0x46, 0x46] @ PutUint32 (DataSize v + 36)
       @ [0x57, 0x41, 0x56, 0x45, 0x66, 0x6D, 0x74, 0x20] @ PutUint32 16 @ PutUint16 1
       @ PutUint16 (Channels v) @ PutUint32 (SamplesPerSec v) @ PutUint32 (AvgBytesPerSec v)
       @ PutUint16 (BlockAlign v) @ PutUint16 (BitsPerSample v)
       @ [0x64, 0x61, 0x74, 0x61] @ PutUint32 (DataSize v) @ RawData v"
    by (simp only: Bytes_layout ascii_tags)
  moreover have "let w = v\<lparr>Channels := 2, SamplesPerSec := 44100, BitsPerSample := 16, DataSize := 8,
                   RawData := [b0, b1, b2, b3, b4, b5, b6, b7]\<rparr>
      in length (Bytes w) = 52 \<and> spec_uint32_at (Bytes w) 40 = 8 \<and> spec_uint32_at (Bytes w) 4 = 44"
    by (simp add: Let_def length_Bytes Bytes_fields)
  moreover have "let w = v\<lparr>DataSize := 0, RawData := []\<rparr>
      in length (Bytes w) = 44 \<and> spec_uint32_at (Bytes w) 40 = 0 \<and> drop 44 (Bytes w) = []"
    by (simp add: Let_def length_Bytes Bytes_fields drop_44_Bytes)
  ultimately show ?thesis
    using length_Bytes [of v] drop_44_Bytes [of v] Bytes_fields [of v] by blast
qed

section \<open>Properties of rounding\<close>

lemma rhe_bounds: "\<lfloor>r\<rfloor> \<le> round_half_even r" "round_half_even r \<le> \<lfloor>r\<rfloor> + 1"
  by (simp_all add: round_half_even_def Let_def)

lemma rhe_of_int: "round_half_even (of_int n) = n"
  by (simp add: round_half_even_def)

lemma rhe_mono: assumes "r \<le> s" shows "round_half_even r \<le> round_half_even s"
proof (cases "\<lfloor>r\<rfloor> = \<lfloor>s\<rfloor>")
  case True
  then show ?thesis using assms
    by (auto simp add: round_half_even_def Let_def)
next
  case False
  then have "\<lfloor>r\<rfloor> + 1 \<le> \<lfloor>s\<rfloor>" using floor_mono [OF assms] by simp
  then show ?thesis using rhe_bounds(2) [of r] rhe_bounds(1) [of s] by linarith
qed

lemma rhe_err: "\<bar>of_int (round_half_even r) - r\<bar> \<le> 1 / 2"
proof -
  have "of_int \<lfloor>r\<rfloor> \<le> r" "r < of_int \<lfloor>r\<rfloor> + 1" by linarith+
  then show ?thesis
    unfolding round_half_even_def Let_def by (auto simp add: abs_le_iff)
qed

lemma bitlen_powi_bounds:
  assumes "0 < p"
  shows "(2::rat) powi (bitlen p - 1) \<le> of_int p" and "of_int p < (2::rat) powi bitlen p"
proof -
  have b: "2 ^ nat (bitlen p - 1) \<le> p" "p < 2 ^ nat (bitlen p)"
    using bitlen_bounds [OF assms] by simp_all
  have a1: "1 \<le> bitlen p"
    using assms bitlen_eq_zero_iff [of p] bitlen_nonneg [of p] by linarith
  have "(2::rat) powi (bitlen p - 1) = of_int (2 ^ nat (bitlen p - 1))"
    using a1 by (simp add: power_int_def)
  also have "\<dots> \<le> of_int p" using b(1) by (simp only: of_int_le_iff)
  finally show "(2::rat) powi (bitlen p - 1) \<le> of_int p" .
  have "of_int p < (of_int (2 ^ nat (bitlen p)) :: rat)" using b(2) by (simp only: of_int_less_iff)
  also have "\<dots> = 2 powi bitlen p" using a1 by (simp add: power_int_def)
  finally show "of_int p < (2::rat) powi bitlen p" .
qed

lemma expo_bounds:
  assumes "0 < x"
  shows "2 powi expo x \<le> x" and "x < 2 powi (expo x + 1)"
proof -
  obtain p q where pq: "quotient_of x = (p, q)" by (cases "quotient_of x")
  have q: "0 < q" using quotient_of_denom_pos [OF pq] .
  have x: "x = of_int p / of_int q" using quotient_of_div [OF pq] .
  have p: "0 < p" using assms q unfolding x by (simp add: zero_less_divide_iff)
  define a where "a = bitlen p"
  define b where "b = bitlen q"
  note pb = bitlen_powi_bounds [OF p, folded a_def]
  note qb = bitlen_powi_bounds [OF q, folded b_def]
  have q': "(0::rat) < of_int q" using q by simp
  have "(2::rat) powi (a - b - 1) * of_int q \<le> 2 powi (a - b - 1) * 2 powi b"
    using qb(2) by (intro mult_left_mono) auto
  also have "\<dots> = 2 powi (a - 1)" by (simp flip: power_int_add)
  also have "\<dots> \<le> of_int p" by (rule pb(1))
  finally have lo: "(2::rat) powi (a - b - 1) \<le> x"
    unfolding x using q' by (simp add: pos_le_divide_eq)
  have "of_int p < (2::rat) powi a" by (rule pb(2))
  also have "\<dots> = 2 powi (a - b + 1) * 2 powi (b - 1)" by (simp flip: power_int_add)
  also have "\<dots> \<le> 2 powi (a - b + 1) * of_int q"
    using qb(1) by (intro mult_left_mono) auto
  finally have hi: "x < (2::rat) powi (a - b + 1)"
    unfolding x using q' by (simp add: pos_divide_less_eq)
  have e: "expo x = (if 2 powi (a - b) \<le> x then a - b else a - b - 1)"
    by (simp add: expo_def pq a_def b_def Let_def)
  show "2 powi expo x \<le> x" using lo by (simp add: e)
  show "x < 2 powi (expo x + 1)" using hi by (auto simp add: e not_le)
qed

lemma expo_mono:
  assumes "0 < x" "x \<le> y"
  shows "expo x \<le> expo y"
proof (rule ccontr)
  assume "\<not> expo x \<le> expo y"
  then have "expo y + 1 \<le> expo x" by simp
  then have "(2::rat) powi (expo y + 1) \<le> 2 powi expo x"
    by (intro power_int_increasing) auto
  moreover have "y < 2 powi (expo y + 1)" using assms by (intro expo_bounds) auto
  moreover have "2 powi expo x \<le> x" using assms by (intro expo_bounds) auto
  ultimately show False using assms(2) by linarith
qed

text \<open>Rounding a positive number at a given spacing.\<close>

lemma f64_ulp_pos: "0 < f64_ulp x"
  by (simp add: f64_ulp_def)

lemma f64_nearest_pos_eq:
  "0 < x \<Longrightarrow> f64_nearest x = of_int (round_half_even (x / f64_ulp x)) * f64_ulp x"
  by (simp add: f64_nearest_def)

lemma f64_nearest_upper:
  assumes "0 < x"
  shows "f64_nearest x \<le> 2 powi (max (expo x) (- 1022) + 1)"
proof -
  define e where "e = max (expo x) (- 1022)"
  have u: "f64_ulp x = 2 powi (e - 52)" using assms by (simp add: f64_ulp_def e_def)
  have "x < 2 powi (expo x + 1)" by (rule expo_bounds [OF assms])
  also have "\<dots> \<le> 2 powi (e + 1)" by (intro power_int_increasing) (auto simp: e_def)
  also have "\<dots> = 2 powi 53 * 2 powi (e - 52)"
    using power_int_add [of "2::rat" 53 "e - 52"] by (simp add: add.commute)
  finally have "x / 2 powi (e - 52) \<le> of_int (2 ^ 53)"
    by (simp add: pos_divide_le_eq)
  then have "round_half_even (x / 2 powi (e - 52)) \<le> 2 ^ 53"
    using rhe_mono rhe_of_int by metis
  then have "(of_int (round_half_even (x / 2 powi (e - 52))) :: rat) \<le> of_int (2 ^ 53)"
    by (simp only: of_int_le_iff)
  then have "of_int (round_half_even (x / 2 powi (e - 52))) * 2 powi (e - 52) \<le> (2::rat) powi 53 * 2 powi (e - 52)"
    by (intro mult_right_mono) auto
  also have "\<dots> = 2 powi (e + 1)"
    using power_int_add [of "2::rat" 53 "e - 52"] by (simp add: add.commute)
  finally show ?thesis
    using assms by (simp add: f64_nearest_pos_eq u e_def)
qed

lemma f64_nearest_lower:
  assumes "0 < x" "- 1022 \<le> expo x"
  shows "2 powi expo x \<le> f64_nearest x"
proof -
  define e where "e = expo x"
  have u: "f64_ulp x = 2 powi (e - 52)" using assms by (simp add: f64_ulp_def e_def max_def)
  have split: "(2::rat) powi 52 * 2 powi (e - 52) = 2 powi e"
    using power_int_add [of "2::rat" 52 "e - 52"] by simp
  note split
  also have "\<dots> \<le> x" unfolding e_def by (rule expo_bounds [OF assms(1)])
  finally have "of_int (2 ^ 52) \<le> x / 2 powi (e - 52)"
    by (simp add: pos_le_divide_eq)
  then have "2 ^ 52 \<le> round_half_even (x / 2 powi (e - 52))"
    using rhe_mono rhe_of_int by metis
  then have "(of_int (2 ^ 52) :: rat) \<le> of_int (round_half_even (x / 2 powi (e - 52)))"
    by (simp only: of_int_le_iff)
  then have "(2::rat) powi 52 * 2 powi (e - 52) \<le> of_int (round_half_even (x / 2 powi (e - 52))) * 2 powi (e - 52)"
    by (intro mult_right_mono) auto
  then show ?thesis
    unfolding split
    using assms by (simp add: f64_nearest_pos_eq u e_def)
qed

lemma f64_nearest_nonneg: "0 \<le> x \<Longrightarrow> 0 \<le> f64_nearest x"
proof (cases "x = 0")
  case True then show ?thesis by (simp add: f64_nearest_def)
next
  case False
  assume "0 \<le> x"
  with False have x: "0 < x" by simp
  have "0 \<le> x / f64_ulp x" using x f64_ulp_pos [of x] by simp
  then have "0 \<le> round_half_even (x / f64_ulp x)"
    using rhe_mono [of 0 "x / f64_ulp x"] rhe_of_int [of 0] by simp
  then show ?thesis
    using x f64_ulp_pos [of x] by (simp add: f64_nearest_pos_eq)
qed

lemma f64_nearest_mono_pos:
  assumes "0 < x" "x \<le> y"
  shows "f64_nearest x \<le> f64_nearest y"
proof -
  have y: "0 < y" using assms by simp
  define ex where "ex = max (expo x) (- 1022)"
  define ey where "ey = max (expo y) (- 1022)"
  have le: "ex \<le> ey" using expo_mono [OF assms] by (simp add: ex_def ey_def)
  show ?thesis
  proof (cases "ex = ey")
    case True
    have u: "f64_ulp x = f64_ulp y" using assms y True by (simp add: f64_ulp_def ex_def ey_def)
    have "x / f64_ulp y \<le> y / f64_ulp y"
      using assms(2) f64_ulp_pos [of y] by (simp add: divide_right_mono)
    then have "round_half_even (x / f64_ulp y) \<le> round_half_even (y / f64_ulp y)"
      by (rule rhe_mono)
    then have "(of_int (round_half_even (x / f64_ulp y)) :: rat) \<le> of_int (round_half_even (y / f64_ulp y))"
      by (simp only: of_int_le_iff)
    then show ?thesis
      using assms(1) y f64_ulp_pos [of y]
      by (simp add: f64_nearest_pos_eq u mult_right_mono)
  next
    case False
    then have lt: "ex + 1 \<le> ey" using le by simp
    then have ey: "ey = expo y" "- 1022 \<le> expo y" by (auto simp: ex_def ey_def max_def split: if_splits)
    have "f64_nearest x \<le> 2 powi (ex + 1)"
      unfolding ex_def by (rule f64_nearest_upper [OF assms(1)])
    also have "\<dots> \<le> 2 powi ey" using lt by (intro power_int_increasing) auto
    also have "\<dots> \<le> f64_nearest y"
      unfolding ey(1) by (rule f64_nearest_lower [OF y ey(2)])
    finally show ?thesis .
  qed
qed

lemma f64_nearest_mono:
  assumes "0 \<le> x" "x \<le> y"
  shows "f64_nearest x \<le> f64_nearest y"
proof (cases "x = 0")
  case True
  then show ?thesis using assms f64_nearest_nonneg [of y] by (simp add: f64_nearest_def)
next
  case False
  then show ?thesis using assms by (intro f64_nearest_mono_pos) auto
qed

lemma f64_round_mono:
  assumes "0 \<le> x" "x \<le> y" "f64_round y = Some b"
  shows "\<exists>a. f64_round x = Some a \<and> 0 \<le> a \<and> a \<le> b"
proof -
  have b: "b = f64_nearest y" and ny: "\<not> (f64_nearest y \<noteq> 0 \<and> 1024 \<le> expo \<bar>f64_nearest y\<bar>)"
    using assms(3) by (auto simp add: f64_round_def Let_def split: if_splits)
  have 0: "0 \<le> f64_nearest x" by (rule f64_nearest_nonneg [OF assms(1)])
  have le: "f64_nearest x \<le> f64_nearest y" by (rule f64_nearest_mono [OF assms(1,2)])
  have "\<not> (f64_nearest x \<noteq> 0 \<and> 1024 \<le> expo \<bar>f64_nearest x\<bar>)"
  proof
    assume a: "f64_nearest x \<noteq> 0 \<and> 1024 \<le> expo \<bar>f64_nearest x\<bar>"
    then have p: "0 < f64_nearest x" using 0 by simp
    have "expo (f64_nearest x) \<le> expo (f64_nearest y)" by (rule expo_mono [OF p le])
    then show False using a ny p le by simp
  qed
  then have "f64_round x = Some (f64_nearest x)" by (simp add: f64_round_def Let_def)
  then show ?thesis using 0 le b by simp
qed

text \<open>The chain of operations of line 239 is monotone in the accumulated size.\<close>

lemma f64_div_mono:
  assumes "0 \<le> x" "x \<le> y" "0 < d" "f64_div (Some y) d = Some b"
  shows "\<exists>a. f64_div (Some x) d = Some a \<and> 0 \<le> a \<and> a \<le> b"
proof -
  have "f64_round (y / d) = Some b" using assms(3,4) by (simp add: f64_div_def)
  moreover have "0 \<le> x / d" "x / d \<le> y / d" using assms by (simp_all add: divide_right_mono)
  ultimately have "\<exists>a. f64_round (x / d) = Some a \<and> 0 \<le> a \<and> a \<le> b"
    using f64_round_mono by blast
  then show ?thesis using assms(3) by (simp add: f64_div_def)
qed

lemma f64_mul_mono:
  assumes "0 \<le> x" "x \<le> y" "0 \<le> m" "f64_mul (Some y) m = Some b"
  shows "\<exists>a. f64_mul (Some x) m = Some a \<and> 0 \<le> a \<and> a \<le> b"
proof -
  have "f64_round (y * m) = Some b" using assms(4) by (simp add: f64_mul_def)
  moreover have "0 \<le> x * m" "x * m \<le> y * m" using assms by (simp_all add: mult_right_mono)
  ultimately have "\<exists>a. f64_round (x * m) = Some a \<and> 0 \<le> a \<and> a \<le> b"
    using f64_round_mono by blast
  then show ?thesis by (simp add: f64_mul_def)
qed

lemma f64_div_Some: "f64_div a d = Some b \<Longrightarrow> \<exists>x. a = Some x"
  by (cases a) (simp_all add: f64_div_def)

lemma f64_mul_Some: "f64_mul a m = Some b \<Longrightarrow> \<exists>x. a = Some x"
  by (cases a) (simp_all add: f64_mul_def)

lemma seconds_mono:
  assumes "0 \<le> x" "x \<le> y" "0 < d1" "0 < d2" "0 < d3"
    and "f64_mul (f64_div (f64_div (f64_div (Some y) d1) d2) d3) 1000000000 = Some b"
  shows "\<exists>a. f64_mul (f64_div (f64_div (f64_div (Some x) d1) d2) d3) 1000000000 = Some a
           \<and> 0 \<le> a \<and> a \<le> b"
proof -
  obtain y3 where y3: "f64_div (f64_div (f64_div (Some y) d1) d2) d3 = Some y3"
    using f64_mul_Some [OF assms(6)] by blast
  obtain y2 where y2: "f64_div (f64_div (Some y) d1) d2 = Some y2"
    using f64_div_Some [OF y3] by blast
  obtain y1 where y1: "f64_div (Some y) d1 = Some y1"
    using f64_div_Some [OF y2] by blast
  obtain x1 where x1: "f64_div (Some x) d1 = Some x1" "0 \<le> x1" "x1 \<le> y1"
    using f64_div_mono [OF assms(1,2,3) y1] by blast
  obtain x2 where x2: "f64_div (Some x1) d2 = Some x2" "0 \<le> x2" "x2 \<le> y2"
    using f64_div_mono [OF x1(2,3) assms(4)] y2 [unfolded y1] by blast
  obtain x3 where x3: "f64_div (Some x2) d3 = Some x3" "0 \<le> x3" "x3 \<le> y3"
    using f64_div_mono [OF x2(2,3) assms(5)] y3 [unfolded y2] by blast
  have "f64_mul (Some y3) 1000000000 = Some b" using assms(6) by (simp add: y3)
  then obtain a where "f64_mul (Some x3) 1000000000 = Some a" "0 \<le> a" "a \<le> b"
    using f64_mul_mono [OF x3(2,3), of 1000000000 b] by auto
  then show ?thesis by (simp add: x1 x2 x3)
qed

lemma seconds_top:
  "f64_mul (f64_div (f64_div (f64_div (Some 4294967295) 2) 2) 44100) 1000000000
     = Some (3116529556462585 / 128)"
  by code_simp

lemma seconds_176400:
  "f64_mul (f64_div (f64_div (f64_div (Some 176400) 2) 2) 44100) 1000000000 = Some 1000000000"
  by code_simp

lemma seconds_176401:
  "f64_mul (f64_div (f64_div (f64_div (Some 176401) 2) 2) 44100) 1000000000
     = Some (8388655554467119 / 8388608)"
  by code_simp

lemma Duration_of_float64_nonneg:
  assumes "0 \<le> v" "v < 2 ^ 63"
  shows "Duration_of_float64 (Some v) = Some \<lfloor>v\<rfloor>"
proof -
  have "0 \<le> \<lfloor>v\<rfloor>" using assms(1) by simp
  moreover have "\<lfloor>v\<rfloor> < 2 ^ 63" using assms(2) by (simp add: floor_less_iff)
  ultimately show ?thesis using assms(1) by (simp add: Duration_of_float64_def trunc_def Let_def)
qed

lemma currentDuration_profile:
  assumes "BitsPerSample a = 16" "Channels a = 2" "SamplesPerSec a = 44100"
  shows "\<exists>c. currentDuration a = Some c \<and> 0 \<le> c
           \<and> (1000000000 < c \<longleftrightarrow> 176400 < unat (DataSize a))"
proof -
  define n where "n = unat (DataSize a)"
  define x :: rat where "x = of_nat n"
  have n: "n < 4294967296" unfolding n_def by (rule unat_uint32_less)
  have x0: "0 \<le> x" by (simp add: x_def)
  have "n \<le> 4294967295" using n by simp
  then have "(of_nat n :: rat) \<le> of_nat 4294967295" by (simp only: of_nat_le_iff)
  then have xt: "x \<le> 4294967295" by (simp add: x_def)
  have cd: "currentDuration a =
      Duration_of_float64 (f64_mul (f64_div (f64_div (f64_div (Some x) 2) 2) 44100) 1000000000)"
    by (simp add: currentDuration_def assms float64_of_uint16_def float64_of_uint32_def
        Second_def x_def n_def)
  obtain v where v: "f64_mul (f64_div (f64_div (f64_div (Some x) 2) 2) 44100) 1000000000 = Some v"
      "0 \<le> v" "v \<le> 3116529556462585 / 128"
    using seconds_mono [OF x0 xt _ _ _ seconds_top] by auto
  have "v < 2 ^ 63" using v(3) by simp
  then have c: "currentDuration a = Some \<lfloor>v\<rfloor>"
    using Duration_of_float64_nonneg [OF v(2)] by (simp add: cd v(1))
  have "1000000000 < \<lfloor>v\<rfloor> \<longleftrightarrow> 176400 < n"
  proof (cases "176400 < n")
    case True
    then have "176401 \<le> n" by simp
    then have "(of_nat 176401 :: rat) \<le> of_nat n" by (simp only: of_nat_le_iff)
    then have "176401 \<le> x" by (simp add: x_def)
    then obtain l where "f64_mul (f64_div (f64_div (f64_div (Some 176401) 2) 2) 44100) 1000000000 = Some l"
      "l \<le> v"
      using seconds_mono [OF _ _ _ _ _ v(1), of 176401] by auto
    then have "8388655554467119 / 8388608 \<le> v" by (simp add: seconds_176401)
    then have "1000000001 \<le> v" by simp
    then have "1000000001 \<le> \<lfloor>v\<rfloor>" by (simp add: le_floor_iff)
    then show ?thesis using True by simp
  next
    case False
    then have "n \<le> 176400" by simp
    then have "(of_nat n :: rat) \<le> of_nat 176400" by (simp only: of_nat_le_iff)
    then have "x \<le> 176400" by (simp add: x_def)
    then obtain u where "f64_mul (f64_div (f64_div (f64_div (Some x) 2) 2) 44100) 1000000000 = Some u"
      "u \<le> 1000000000"
      using seconds_mono [OF x0 _ _ _ _ seconds_176400] by auto
    then have "v \<le> 1000000000" by (simp add: v(1))
    then have "\<lfloor>v\<rfloor> \<le> 1000000000" by (simp add: floor_le_iff)
    then show ?thesis using False by simp
  qed
  then show ?thesis using c v(2) by (simp add: n_def)
qed

section \<open>The duration gate\<close>

lemma iteration_gate1:
  assumes "\<not> sigint p" "currentDuration (audio s) = Some current" "shouldStop duration current"
  shows "iteration duration wfx bufferFrameSize s p = Next (s\<lparr>isCapturing := False\<rparr>)"
  using assms by (simp add: iteration_def)

lemma iteration_gate2:
  assumes "\<not> sigint p" "currentDuration (audio s) = Some current" "\<not> shouldStop duration current"
    "iteration duration wfx bufferFrameSize s p = Next s'"
  shows "isCapturing s' = isCapturing s"
  using assms
  by (auto simp add: iteration_def Let_def emit_def
      split: sum.splits option.splits if_splits prod.splits)

text \<open>
  Claim C2. The condition of the duration gate is true exactly when the requested duration is
  not zero and the current duration exceeds it. In a pass of the loop that finds no interrupt
  waiting, capturing ends at the gate exactly when that condition holds, and it ends there
  without any access to the buffer. For a requested duration of one second and the format
  44100 Hz, 16 bits, stereo, the current duration computed by line 239 is defined for every
  accumulated size, and the gate fires exactly when the size exceeds 176400 bytes.
\<close>

theorem duration_gate:
  "(shouldStop duration current \<longleftrightarrow> duration \<noteq> 0 \<and> current > duration)
   \<and> (isCapturing s \<and> \<not> sigint p \<and> currentDuration (audio s) = Some current \<longrightarrow>
        ((\<exists>s'. iteration duration wfx bufferFrameSize s p = Next s' \<and> \<not> isCapturing s')
            \<longleftrightarrow> shouldStop duration current)
        \<and> (shouldStop duration current \<longrightarrow>
              iteration duration wfx bufferFrameSize s p = Next (s\<lparr>isCapturing := False\<rparr>)))
   \<and> (BitsPerSample a = 16 \<and> Channels a = 2 \<and> SamplesPerSec a = 44100 \<longrightarrow>
        (\<exists>c. currentDuration a = Some c \<and> (shouldStop Second c \<longleftrightarrow> 176400 < unat (DataSize a))))"
proof (intro conjI impI)
  show "shouldStop duration current \<longleftrightarrow> duration \<noteq> 0 \<and> current > duration"
    by (simp add: shouldStop_def)
next
  assume h: "isCapturing s \<and> \<not> sigint p \<and> currentDuration (audio s) = Some current"
  show "(\<exists>s'. iteration duration wfx bufferFrameSize s p = Next s' \<and> \<not> isCapturing s')
            \<longleftrightarrow> shouldStop duration current"
  proof (cases "shouldStop duration current")
    case True
    then show ?thesis using iteration_gate1 [of p s current duration] h by simp
  next
    case False
    then show ?thesis using iteration_gate2 [of p s current duration] h by auto
  qed
next
  assume h: "isCapturing s \<and> \<not> sigint p \<and> currentDuration (audio s) = Some current"
    and "shouldStop duration current"
  then show "iteration duration wfx bufferFrameSize s p = Next (s\<lparr>isCapturing := False\<rparr>)"
    using iteration_gate1 by simp
next
  assume "BitsPerSample a = 16 \<and> Channels a = 2 \<and> SamplesPerSec a = 44100"
  then obtain c where "currentDuration a = Some c" "0 \<le> c"
      "1000000000 < c \<longleftrightarrow> 176400 < unat (DataSize a)"
    using currentDuration_profile [of a] by blast
  then show "\<exists>c. currentDuration a = Some c \<and> (shouldStop Second c \<longleftrightarrow> 176400 < unat (DataSize a))"
    by (simp add: shouldStop_def Second_def)
qed

theorem duration_gate_witness:
  "isCapturing \<lparr>audio = \<lparr>FormatTag = 0, Channels = 2, SamplesPerSec = 44100,
       AvgBytesPerSec = 176400, BlockAlign = 4, BitsPerSample = 16, DataSize = 8,
       RawData = [1, 2, 3, 4, 5, 6, 7, 8]\<rparr>, isCapturing = True, capturingPeriod = 10000000,
       trace = [Sleep 10000000]\<rparr>
   \<and> \<not> sigint \<lparr>sigint = False, r_GetBuffer = Inr (\<lambda>n. 0, 0), r_GetCurrentPadding = Inr 0,
       r_ReleaseBuffer = None\<rparr>
   \<and> currentDuration \<lparr>FormatTag = 0, Channels = 2, SamplesPerSec = 44100,
       AvgBytesPerSec = 176400, BlockAlign = 4, BitsPerSample = 16, DataSize = 8,
       RawData = [1, 2, 3, 4, 5, 6, 7, 8]\<rparr> = Some 45351
   \<and> shouldStop 1 45351
   \<and> iteration 1 \<lparr>WFormatTag = 1, NChannels = 2, NSamplesPerSec = 44100,
         NAvgBytesPerSec = 176400, NBlockAlign = 4, WBitsPerSample = 16, CbSize = 0\<rparr> 8820
       \<lparr>audio = \<lparr>FormatTag = 0, Channels = 2, SamplesPerSec = 44100,
         AvgBytesPerSec = 176400, BlockAlign = 4, BitsPerSample = 16, DataSize = 8,
         RawData = [1, 2, 3, 4, 5, 6, 7, 8]\<rparr>, isCapturing = True, capturingPeriod = 10000000,
         trace = [Sleep 10000000]\<rparr>
       \<lparr>sigint = False, r_GetBuffer = Inr (\<lambda>n. 0, 0), r_GetCurrentPadding = Inr 0,
         r_ReleaseBuffer = None\<rparr>
     = Next \<lparr>audio = \<lparr>FormatTag = 0, Channels = 2, SamplesPerSec = 44100,
         AvgBytesPerSec = 176400, BlockAlign = 4, BitsPerSample = 16, DataSize = 8,
         RawData = [1, 2, 3, 4, 5, 6, 7, 8]\<rparr>, isCapturing = False, capturingPeriod = 10000000,
         trace = [Sleep 10000000]\<rparr>
   \<and> (\<exists>c. currentDuration \<lparr>FormatTag = 0, Channels = 2, SamplesPerSec = 44100,
         AvgBytesPerSec = 176400, BlockAlign = 4, BitsPerSample = 16, DataSize = 176404,
         RawData = replicate 176404 0\<rparr> = Some c \<and> shouldStop Second c)"
proof -
  have cd: "currentDuration \<lparr>FormatTag = 0, Channels = 2, SamplesPerSec = 44100,
       AvgBytesPerSec = 176400, BlockAlign = 4, BitsPerSample = 16, DataSize = 8,
       RawData = [1, 2, 3, 4, 5, 6, 7, 8]\<rparr> = Some 45351"
    apply (simp add: currentDuration_def float64_of_uint16_def float64_of_uint32_def Second_def)
    apply code_simp
    done
  show ?thesis
    using cd
      duration_gate [of 1 45351
        "\<lparr>audio = \<lparr>FormatTag = 0, Channels = 2, SamplesPerSec = 44100,
           AvgBytesPerSec = 176400, BlockAlign = 4, BitsPerSample = 16, DataSize = 8,
           RawData = [1, 2, 3, 4, 5, 6, 7, 8]\<rparr>, isCapturing = True, capturingPeriod = 10000000,
           trace = [Sleep 10000000]\<rparr>"
        "\<lparr>sigint = False, r_GetBuffer = Inr (\<lambda>n. 0, 0), r_GetCurrentPadding = Inr 0,
           r_ReleaseBuffer = None\<rparr>"
        "\<lparr>WFormatTag = 1, NChannels = 2, NSamplesPerSec = 44100,
           NAvgBytesPerSec = 176400, NBlockAlign = 4, WBitsPerSample = 16, CbSize = 0\<rparr>" 8820
        "\<lparr>FormatTag = 0, Channels = 2, SamplesPerSec = 44100,
           AvgBytesPerSec = 176400, BlockAlign = 4, BitsPerSample = 16, DataSize = 176404,
           RawData = replicate 176404 0\<rparr>"]
    by simp
qed

end
